theory Spec2Isabelle
  imports
    Main
    "HOL-Library.Char_ord"
    "HOL-Library.List_Lexorder"
    "HOL-Library.Multiset"
    "HOL-Library.Word"
begin

section \<open>Conventions\<close>

text \<open>
  The development embeds \<^verbatim>\<open>epub_convert.py\<close>. A Python \<^verbatim>\<open>str\<close> is a
  \<^typ>\<open>string\<close>, one \<^typ>\<open>char\<close> per code point, so the texts of the model are those
  whose code points lie below 256; a Python \<^verbatim>\<open>bytes\<close> object is a list of 8-bit words.
  Every place where the Python can raise is a branch that returns \<open>Inl\<close> of the
  exception; a function that returns \<open>Inr\<close> returned normally. An exception the
  program does not catch leaves the function that met it.

  Four things the program calls are not part of it: \<^verbatim>\<open>zipfile.ZipFile\<close>,
  \<^verbatim>\<open>xml.etree.ElementTree.fromstring\<close>, \<^verbatim>\<open>bytes.decode("utf-8")\<close> and the tokenizer
  of \<^verbatim>\<open>html.parser.HTMLParser\<close>. They are parameters of the model (the record
  \<open>stdlib\<close> below), each free to return or to raise, and every general theorem holds
  for all values of them.

  The exceptions are Python's. \<open>Unlisted\<close> is not one of them: it is the answer of the
  example library of this development on an input that is not among its examples.
\<close>

datatype error =
    ValueError
  | BadZipFile
  | KeyError
  | IndexError
  | ParseError
  | LookupError
  | AssertionError
  | RuntimeError
  | NotImplementedError
  | UnicodeDecodeError
  | Unlisted

type_synonym byte = "8 word"

subsection \<open>String primitives of Python used by the program\<close>

definition NL :: char where
  "NL = CHR 0x0A"

definition CR :: char where
  "CR = CHR 0x0D"

definition SP :: char where
  "SP = CHR 0x20"

text \<open>\<^verbatim>\<open>str.lower()\<close> on code points below 256: the ASCII capitals and the Latin-1
  capitals \<open>0xC0..0xDE\<close> (the multiplication sign \<open>0xD7\<close> apart) move up by 32.\<close>

definition lower_char :: "char \<Rightarrow> char" where
  "lower_char c =
     (let n = (of_char c :: nat) in
      if (0x41 \<le> n \<and> n \<le> 0x5A) \<or> (0xC0 \<le> n \<and> n \<le> 0xDE \<and> n \<noteq> 0xD7)
      then char_of (n + 32) else c)"

definition lower :: "string \<Rightarrow> string" where
  "lower s = map lower_char s"

text \<open>\<^verbatim>\<open>str.isspace\<close> on code points below 256, which is what \<^verbatim>\<open>str.strip()\<close> removes.\<close>

definition is_space :: "char \<Rightarrow> bool" where
  "is_space c =
     (let n = (of_char c :: nat) in
      (0x09 \<le> n \<and> n \<le> 0x0D) \<or> (0x1C \<le> n \<and> n \<le> 0x20) \<or> n = 0x85 \<or> n = 0xA0)"

definition strip :: "string \<Rightarrow> string" where
  "strip s = rev (dropWhile is_space (rev (dropWhile is_space s)))"

definition endswith :: "string \<Rightarrow> string \<Rightarrow> bool" where
  "endswith s suf = (length suf \<le> length s \<and> drop (length s - length suf) s = suf)"

text \<open>\<^verbatim>\<open>sub in s\<close> for strings.\<close>

fun contains :: "string \<Rightarrow> string \<Rightarrow> bool" where
  "contains [] sub = (sub = [])"
| "contains (c # cs) sub = (take (length sub) (c # cs) = sub \<or> contains cs sub)"

text \<open>\<^verbatim>\<open>sep.join(xs)\<close>.\<close>

fun join :: "string \<Rightarrow> string list \<Rightarrow> string" where
  "join sep [] = []"
| "join sep [x] = x"
| "join sep (x # y # ys) = x @ sep @ join sep (y # ys)"

text \<open>\<^verbatim>\<open>s.split(c)\<close> for a separator of one character: the pieces between the
  separators, empty pieces kept.\<close>

fun split_char :: "char \<Rightarrow> string \<Rightarrow> string list" where
  "split_char c [] = [[]]"
| "split_char c (x # xs) =
     (if x = c then [] # split_char c xs
      else (case split_char c xs of
              [] \<Rightarrow> [[x]]
            | p # ps \<Rightarrow> (x # p) # ps))"

text \<open>\<^verbatim>\<open>s.rsplit(c, 1)[0]\<close> for a string that contains \<open>c\<close>: what stands before the
  last \<open>c\<close>.\<close>

definition rsplit1_head :: "char \<Rightarrow> string \<Rightarrow> string" where
  "rsplit1_head c s = rev (drop 1 (dropWhile (\<lambda>x. x \<noteq> c) (rev s)))"

section \<open>Minimal HTML to text\<close>

definition BLOCK_TAGS :: "string list" where
  "BLOCK_TAGS =
     [''p'', ''div'', ''section'', ''article'', ''header'', ''footer'', ''aside'',
      ''h1'', ''h2'', ''h3'', ''h4'', ''h5'', ''h6'',
      ''ul'', ''ol'', ''li'',
      ''pre'', ''blockquote'',
      ''hr'', ''br'',
      ''table'', ''tr'']"

text \<open>
  The callbacks \<^verbatim>\<open>HTMLParser.feed\<close> makes while it reads a document.
  \<^verbatim>\<open>_TextExtractor\<close> overrides three of them; \<^verbatim>\<open>handle_startendtag\<close> is the
  base class's, which calls \<^verbatim>\<open>handle_starttag\<close> and then \<^verbatim>\<open>handle_endtag\<close>; the
  base class's callbacks for comments, declarations and processing instructions do
  nothing.
\<close>

type_synonym attrs = "(string \<times> string option) list"

datatype event =
    StartTag string attrs
  | EndTag string
  | StartEndTag string attrs
  | Data string
  | Comment string
  | Decl string
  | Pi string
  | UnknownDecl string

record extractor =
  parts :: "string list"
  stack :: "string list"

definition init_extractor :: extractor where
  "init_extractor = \<lparr>parts = [], stack = []\<rparr>"

definition handle_starttag :: "extractor \<Rightarrow> string \<Rightarrow> attrs \<Rightarrow> error + extractor" where
  "handle_starttag self tag0 at =
     (let tag = lower tag0;
          self1 = self\<lparr>stack := stack self @ [tag]\<rparr>
      in if tag = ''br'' \<or> tag = ''hr'' then Inr (self1\<lparr>parts := parts self1 @ [[NL]]\<rparr>)
         else if tag \<in> set BLOCK_TAGS then Inr (self1\<lparr>parts := parts self1 @ [[NL]]\<rparr>)
         else Inr self1)"

text \<open>
  The loop of \<^verbatim>\<open>handle_endtag\<close>, \<^verbatim>\<open>for i in range(len(self._stack) - 1, -1, -1)\<close>:
  \<open>pop_to st tag (Suc i)\<close> is the loop about to read \<^verbatim>\<open>self._stack[i]\<close>. Reading
  outside the list is Python's \<^verbatim>\<open>IndexError\<close>. The result is the stack after the
  loop.
\<close>

fun pop_to :: "string list \<Rightarrow> string \<Rightarrow> nat \<Rightarrow> error + string list" where
  "pop_to st tag 0 = Inr st"
| "pop_to st tag (Suc i) =
     (if i < length st
      then (if st ! i = tag then Inr (take i st) else pop_to st tag i)
      else Inl IndexError)"

definition handle_endtag :: "extractor \<Rightarrow> string \<Rightarrow> error + extractor" where
  "handle_endtag self tag0 =
     (let tag = lower tag0 in
      case pop_to (stack self) tag (length (stack self)) of
        Inl e \<Rightarrow> Inl e
      | Inr st \<Rightarrow>
          (let self1 = self\<lparr>stack := st\<rparr>
           in if tag \<in> set BLOCK_TAGS then Inr (self1\<lparr>parts := parts self1 @ [[NL]]\<rparr>)
              else Inr self1))"

definition in_script_or_style :: "string list \<Rightarrow> bool" where
  "in_script_or_style st = list_ex (\<lambda>t. t = ''script'' \<or> t = ''style'') st"

definition handle_data :: "extractor \<Rightarrow> string \<Rightarrow> error + extractor" where
  "handle_data self data =
     (if data = [] then Inr self
      else if in_script_or_style (stack self) then Inr self
      else Inr (self\<lparr>parts := parts self @ [data]\<rparr>))"

fun dispatch :: "extractor \<Rightarrow> event \<Rightarrow> error + extractor" where
  "dispatch self (StartTag tag at) = handle_starttag self tag at"
| "dispatch self (EndTag tag) = handle_endtag self tag"
| "dispatch self (StartEndTag tag at) =
     (case handle_starttag self tag at of
        Inl e \<Rightarrow> Inl e
      | Inr self1 \<Rightarrow> handle_endtag self1 tag)"
| "dispatch self (Data d) = handle_data self d"
| "dispatch self (Comment _) = Inr self"
| "dispatch self (Decl _) = Inr self"
| "dispatch self (Pi _) = Inr self"
| "dispatch self (UnknownDecl _) = Inr self"

text \<open>The callbacks in order; an exception in one ends the run.\<close>

fun run_events :: "extractor \<Rightarrow> event list \<Rightarrow> error + extractor" where
  "run_events self [] = Inr self"
| "run_events self (ev # evs) =
     (case dispatch self ev of
        Inl e \<Rightarrow> Inl e
      | Inr self1 \<Rightarrow> run_events self1 evs)"

subsection \<open>The whitespace normalisation of \<^verbatim>\<open>get_text\<close>\<close>

text \<open>\<^verbatim>\<open>text.replace("\r\n", "\n")\<close>, scanning from the left.\<close>

fun replace_crlf :: "string \<Rightarrow> string" where
  "replace_crlf (a # b # cs) =
     (if a = CR \<and> b = NL then NL # replace_crlf cs else a # replace_crlf (b # cs))"
| "replace_crlf cs = cs"

text \<open>\<^verbatim>\<open>text.replace("\r", "\n")\<close>.\<close>

definition replace_cr :: "string \<Rightarrow> string" where
  "replace_cr s = map (\<lambda>c. if c = CR then NL else c) s"

text \<open>The character class \<^verbatim>\<open>[ \t\f\v]\<close>.\<close>

definition is_hspace :: "char \<Rightarrow> bool" where
  "is_hspace c = (c = SP \<or> c = CHR 0x09 \<or> c = CHR 0x0C \<or> c = CHR 0x0B)"

text \<open>\<^verbatim>\<open>re.sub(r"[ \t\f\v]+", " ", text)\<close>: the matches are the maximal runs of the
  class, each replaced by one space.\<close>

function collapse_hspace :: "string \<Rightarrow> string" where
  "collapse_hspace [] = []"
| "collapse_hspace (c # cs) =
     (if is_hspace c then SP # collapse_hspace (dropWhile is_hspace cs)
      else c # collapse_hspace cs)"
  by pat_completeness auto
termination
  by (relation "measure length") (auto simp: length_dropWhile_le less_Suc_eq_le)

text \<open>\<^verbatim>\<open>re.sub(r"\n{3,}", "\n\n", text)\<close>: a maximal run of three or more newlines is
  one match and becomes two newlines; a shorter run has no match and stays.\<close>

function collapse_newlines :: "string \<Rightarrow> string" where
  "collapse_newlines [] = []"
| "collapse_newlines (c # cs) =
     (if c = NL
      then (if 3 \<le> length (takeWhile (\<lambda>x. x = NL) (c # cs))
            then [NL, NL] else takeWhile (\<lambda>x. x = NL) (c # cs))
           @ collapse_newlines (dropWhile (\<lambda>x. x = NL) cs)
      else c # collapse_newlines cs)"
  by pat_completeness auto
termination
  by (relation "measure length") (auto simp: length_dropWhile_le less_Suc_eq_le)

text \<open>
  Three properties of a text, for the layout of the output: it has three newlines in a
  row; every character of the class \<^verbatim>\<open>[ \t\f\v]\<close> in it is a space that no other
  character of the class follows; it neither starts nor ends with whitespace.
\<close>

fun triple_nl :: "string \<Rightarrow> bool" where
  "triple_nl (a # b # c # cs) = ((a = NL \<and> b = NL \<and> c = NL) \<or> triple_nl (b # c # cs))"
| "triple_nl cs = False"




definition get_text :: "extractor \<Rightarrow> string" where
  "get_text self =
     strip (collapse_newlines (collapse_hspace (replace_cr (replace_crlf (concat (parts self))))))"


section \<open>The standard library, as the program sees it\<close>

text \<open>
  A \<^verbatim>\<open>ZipFile\<close> is its members in archive order, names and contents. A member
  that the directory of the archive lists need not be readable: \<^verbatim>\<open>read\<close> raises
  \<^verbatim>\<open>BadZipFile\<close> on a member whose checksum does not match, \<^verbatim>\<open>RuntimeError\<close> on an
  encrypted member (the program gives no password) and \<^verbatim>\<open>NotImplementedError\<close> on a
  member stored with a compression method Python does not have.
  \<^verbatim>\<open>namelist()\<close> lists the names in archive order; \<^verbatim>\<open>read(name)\<close> reads the last
  member of that name and raises \<^verbatim>\<open>KeyError\<close> when there is none.
\<close>

datatype member =
    Stored "byte list"
  | BadChecksum
  | Encrypted
  | UnknownCompression

fun member_read :: "member \<Rightarrow> error + byte list" where
  "member_read (Stored data) = Inr data"
| "member_read BadChecksum = Inl BadZipFile"
| "member_read Encrypted = Inl RuntimeError"
| "member_read UnknownCompression = Inl NotImplementedError"

type_synonym zipfile = "(string \<times> member) list"

definition namelist :: "zipfile \<Rightarrow> string list" where
  "namelist zf = map fst zf"

definition zf_read :: "zipfile \<Rightarrow> string \<Rightarrow> error + byte list" where
  "zf_read zf name =
     (case map_of (rev zf) name of
        None \<Rightarrow> Inl KeyError
      | Some m \<Rightarrow> member_read m)"

text \<open>
  An \<^verbatim>\<open>Element.attrib\<close> dictionary, and a parsed document as the four queries the
  program makes on its root:
  \<^item> \<open>find_rootfile\<close>: \<^verbatim>\<open>root.find(".//c:rootfile", _NS)\<close>, the attributes of the
    element found, \<open>None\<close> when there is none;
  \<^item> \<open>find_title\<close>: \<^verbatim>\<open>root.find(".//dc:title", _NS)\<close>, the \<^verbatim>\<open>text\<close> of the element
    found (itself \<open>None\<close> for an element without text), \<open>None\<close> when there is none;
  \<^item> \<open>findall_items\<close>: \<^verbatim>\<open>root.findall(".//opf:manifest/opf:item", _NS)\<close>, the
    attributes of each element, in document order;
  \<^item> \<open>findall_itemrefs\<close>: \<^verbatim>\<open>root.findall(".//opf:spine/opf:itemref", _NS)\<close>, likewise.
\<close>

type_synonym attrib = "string \<rightharpoonup> string"

record xmlroot =
  find_rootfile :: "attrib option"
  find_title :: "string option option"
  findall_items :: "attrib list"
  findall_itemrefs :: "attrib list"

text \<open>
  \<^item> \<open>ZipFile\<close>: \<^verbatim>\<open>zipfile.ZipFile(io.BytesIO(data))\<close>. It raises \<^verbatim>\<open>BadZipFile\<close>
    on bytes that are not an archive.
  \<^item> \<open>fromstring\<close>: \<^verbatim>\<open>ET.fromstring(data)\<close>. It raises \<^verbatim>\<open>ParseError\<close> on
    markup that is not well formed, and other exceptions too: \<^verbatim>\<open>LookupError\<close> on a
    document that declares an encoding Python does not know.
  \<^item> \<open>decode_utf8\<close>: \<^verbatim>\<open>data.decode("utf-8")\<close>. It raises \<^verbatim>\<open>UnicodeDecodeError\<close>
    on bytes that are not UTF-8.
  \<^item> \<open>feed\<close>: \<^verbatim>\<open>HTMLParser.feed\<close> on a document: the callbacks it makes, in
    order, when it returns. The tokenizer can raise by itself: \<^verbatim>\<open>AssertionError\<close> on
    a malformed marked section such as \<^verbatim>\<open><![foo]>\<close>.
\<close>

record stdlib =
  ZipFile :: "byte list \<Rightarrow> error + zipfile"
  fromstring :: "byte list \<Rightarrow> error + xmlroot"
  decode_utf8 :: "byte list \<Rightarrow> error + string"
  feed :: "string \<Rightarrow> error + event list"

text \<open>\<^verbatim>\<open>data.decode("latin-1", errors="replace")\<close>: every byte is the code point of
  its value, so no byte is ever replaced.\<close>

definition decode_latin1 :: "byte list \<Rightarrow> string" where
  "decode_latin1 raw = map (\<lambda>b. char_of (unat b)) raw"

text \<open>\<^verbatim>\<open>_html_to_text\<close> has no handler: what \<^verbatim>\<open>parser.feed\<close> raises, the tokenizer
  or a callback, leaves it.\<close>

definition html_to_text :: "stdlib \<Rightarrow> string \<Rightarrow> error + string" where
  "html_to_text L html =
     (case feed L html of
        Inl e \<Rightarrow> Inl e
      | Inr evs \<Rightarrow>
          (case run_events init_extractor evs of
             Inl e \<Rightarrow> Inl e
           | Inr parser \<Rightarrow> Inr (get_text parser)))"

section \<open>EPUB parsing helpers\<close>

definition read_container_rootfile :: "stdlib \<Rightarrow> zipfile \<Rightarrow> error + string option" where
  "read_container_rootfile L zf =
     (case zf_read zf ''META-INF/container.xml'' of
        Inl e \<Rightarrow> (if e = KeyError then Inr None else Inl e)
      | Inr data \<Rightarrow>
          (case fromstring L data of
             Inl e \<Rightarrow> (if e = ParseError then Inr None else Inl e)
           | Inr root \<Rightarrow>
               (case find_rootfile root of
                  None \<Rightarrow> Inr None
                | Some el \<Rightarrow> Inr (el ''full-path''))))"

text \<open>The body of the loop of \<^verbatim>\<open>_join_path\<close>; \<^verbatim>\<open>parts.pop()\<close> drops the last
  segment.\<close>

definition norm_step :: "string list \<Rightarrow> string \<Rightarrow> string list" where
  "norm_step ps p =
     (if p = [] \<or> p = ''.'' then ps
      else if p = ''..'' then (if ps \<noteq> [] then butlast ps else ps)
      else ps @ [p])"

definition join_path :: "string \<Rightarrow> string \<Rightarrow> string" where
  "join_path base rel =
     (if base = [] then rel
      else if CHR ''/'' \<notin> set base then rel
      else (let prefix = rsplit1_head (CHR ''/'') base
            in join ''/'' (foldl norm_step [] (split_char (CHR ''/'') (prefix @ ''/'' @ rel)))))"

text \<open>A path segment that names a file or directory: not empty, not \<open>.\<close>, not \<open>..\<close>.\<close>

definition plain_segment :: "string \<Rightarrow> bool" where
  "plain_segment seg = (seg \<noteq> [] \<and> seg \<noteq> ''.'' \<and> seg \<noteq> ''..'')"

type_synonym manifest = "string \<rightharpoonup> string \<times> string"

definition add_item :: "manifest \<Rightarrow> attrib \<Rightarrow> manifest" where
  "add_item m item =
     (let item_id = item ''id'';
          href = item ''href'';
          media_type = (case item ''media-type'' of None \<Rightarrow> [] | Some v \<Rightarrow> v)
      in case (item_id, href) of
           (Some i, Some h) \<Rightarrow> (if i \<noteq> [] \<and> h \<noteq> [] then m(i \<mapsto> (h, media_type)) else m)
         | _ \<Rightarrow> m)"

definition add_itemref :: "string list \<Rightarrow> attrib \<Rightarrow> string list" where
  "add_itemref ids itemref =
     (case itemref ''idref'' of
        None \<Rightarrow> ids
      | Some idref \<Rightarrow> (if idref \<noteq> [] then ids @ [idref] else ids))"

definition parse_opf ::
  "stdlib \<Rightarrow> zipfile \<Rightarrow> string \<Rightarrow> error + (string option \<times> manifest \<times> string list)" where
  "parse_opf L zf opf_path =
     (case zf_read zf opf_path of
        Inl e \<Rightarrow> Inl e
      | Inr opf_xml \<Rightarrow>
          (case fromstring L opf_xml of
             Inl e \<Rightarrow> Inl e
           | Inr root \<Rightarrow>
               (let title = (case find_title root of
                               Some (Some t) \<Rightarrow> (if t \<noteq> [] then Some (strip t) else None)
                             | _ \<Rightarrow> None);
                    manifest = foldl add_item Map.empty (findall_items root);
                    spine_ids = foldl add_itemref [] (findall_itemrefs root)
                in Inr (title, manifest, spine_ids))))"

text \<open>\<^verbatim>\<open>name.lower().endswith((".xhtml", ".html", ".htm"))\<close>.\<close>

definition html_ext :: "string \<Rightarrow> bool" where
  "html_ext name =
     (let l = lower name
      in endswith l ''.xhtml'' \<or> endswith l ''.html'' \<or> endswith l ''.htm'')"

text \<open>The body of the loop over the spine in \<^verbatim>\<open>_collect_xhtml_paths\<close>.\<close>

definition spine_step :: "string \<Rightarrow> manifest \<Rightarrow> string list \<Rightarrow> string \<Rightarrow> string list" where
  "spine_step opf_path manifest xhtml_paths sid =
     (case manifest sid of
        None \<Rightarrow> xhtml_paths
      | Some (href, media_type) \<Rightarrow>
          (if contains media_type ''html'' \<or> html_ext href
           then xhtml_paths @ [join_path opf_path href]
           else xhtml_paths))"

text \<open>The first half of \<^verbatim>\<open>_collect_xhtml_paths\<close>: \<open>Some\<close> is its
  \<^verbatim>\<open>return title, xhtml_paths\<close>, \<open>None\<close> is falling through to the scan.\<close>

definition spine_paths ::
  "stdlib \<Rightarrow> zipfile \<Rightarrow> string option \<Rightarrow> (string option \<times> string list) option" where
  "spine_paths L zf opf_path =
     (case opf_path of
        None \<Rightarrow> None
      | Some p \<Rightarrow>
          (if p = [] then None
           else (case (case parse_opf L zf p of
                         Inl e \<Rightarrow> (None, Map.empty, [])
                       | Inr r \<Rightarrow> r) of
                   (title, manifest, spine_ids) \<Rightarrow>
                     (let xhtml_paths = foldl (spine_step p manifest) [] spine_ids
                      in if xhtml_paths \<noteq> [] then Some (title, xhtml_paths) else None))))"

definition collect_xhtml_paths ::
  "stdlib \<Rightarrow> zipfile \<Rightarrow> string option \<Rightarrow> string option \<times> string list" where
  "collect_xhtml_paths L zf opf_path =
     (case spine_paths L zf opf_path of
        Some r \<Rightarrow> r
      | None \<Rightarrow> (None, sort (filter html_ext (namelist zf))))"

text \<open>
  The reading order as the specification describes it: the manifest entries the spine
  names, in spine order, those accepted as HTML-like (the media type contains \<open>html\<close>
  or the href has one of the three extensions), each resolved against the package
  document. \<open>falls_back\<close> is the specification's condition for the scan of the archive:
  there is no package pointer, the package document does not parse, or the spine yields
  no document.
\<close>

definition html_like :: "string \<times> string \<Rightarrow> bool" where
  "html_like entry = (contains (snd entry) ''html'' \<or> html_ext (fst entry))"

definition spine_documents :: "string \<Rightarrow> manifest \<Rightarrow> string list \<Rightarrow> string list" where
  "spine_documents opf_path manifest spine_ids =
     map (\<lambda>entry. join_path opf_path (fst entry))
       (filter html_like (List.map_filter manifest spine_ids))"

definition falls_back :: "stdlib \<Rightarrow> zipfile \<Rightarrow> string option \<Rightarrow> bool" where
  "falls_back L zf opf_path =
     (case opf_path of
        None \<Rightarrow> True
      | Some p \<Rightarrow>
          p = [] \<or>
          (case parse_opf L zf p of
             Inl e \<Rightarrow> True
           | Inr (title, manifest, spine_ids) \<Rightarrow> spine_documents p manifest spine_ids = []))"

text \<open>The inner \<^verbatim>\<open>try\<close> of \<^verbatim>\<open>_read_text_files\<close>: UTF-8 first, latin-1 when that
  raises \<^verbatim>\<open>UnicodeDecodeError\<close>.\<close>

definition decode_text :: "stdlib \<Rightarrow> byte list \<Rightarrow> error + string" where
  "decode_text L raw =
     (case decode_utf8 L raw of
        Inl e \<Rightarrow> (if e = UnicodeDecodeError then Inr (decode_latin1 raw) else Inl e)
      | Inr s \<Rightarrow> Inr s)"

fun read_text_files ::
  "stdlib \<Rightarrow> zipfile \<Rightarrow> string list \<Rightarrow> error + (string \<times> string) list" where
  "read_text_files L zf [] = Inr []"
| "read_text_files L zf (p # ps) =
     (case zf_read zf p of
        Inl e \<Rightarrow> (if e = KeyError then read_text_files L zf ps else Inl e)
      | Inr raw \<Rightarrow>
          (case decode_text L raw of
             Inl e \<Rightarrow> Inl e
           | Inr s \<Rightarrow>
               (case read_text_files L zf ps of
                  Inl e \<Rightarrow> Inl e
                | Inr out \<Rightarrow> Inr ((p, s) # out))))"


section \<open>Public API\<close>

text \<open>The loop of \<^verbatim>\<open>epub_to_txt\<close> over the decoded files: the non-empty texts, in
  order.\<close>

fun extract_parts :: "stdlib \<Rightarrow> (string \<times> string) list \<Rightarrow> error + string list" where
  "extract_parts L [] = Inr []"
| "extract_parts L ((p, html) # files) =
     (case html_to_text L html of
        Inl e \<Rightarrow> Inl e
      | Inr text \<Rightarrow>
          (case extract_parts L files of
             Inl e \<Rightarrow> Inl e
           | Inr ps \<Rightarrow> Inr (if text \<noteq> [] then text # ps else ps)))"

text \<open>The last three lines of \<^verbatim>\<open>epub_to_txt\<close>.\<close>

definition finish_txt :: "string list \<Rightarrow> string" where
  "finish_txt ps =
     (let txt = collapse_newlines (strip (join [NL, NL] ps))
      in txt @ (if txt \<noteq> [] then [NL] else []))"

definition epub_to_txt :: "stdlib \<Rightarrow> byte list option \<Rightarrow> error + string" where
  "epub_to_txt L epub_bytes =
     (case epub_bytes of
        None \<Rightarrow> Inl ValueError
      | Some data \<Rightarrow>
          (case ZipFile L data of
             Inl e \<Rightarrow> Inl e
           | Inr zf \<Rightarrow>
               (case read_container_rootfile L zf of
                  Inl e \<Rightarrow> Inl e
                | Inr opf_path \<Rightarrow>
                    (case read_text_files L zf (snd (collect_xhtml_paths L zf opf_path)) of
                       Inl e \<Rightarrow> Inl e
                     | Inr files \<Rightarrow>
                         (case extract_parts L files of
                            Inl e \<Rightarrow> Inl e
                          | Inr ps \<Rightarrow> Inr (finish_txt ps))))))"

text \<open>\<^verbatim>\<open>txt.split("\n\n")\<close>: the separators are found from the left and do not
  overlap.\<close>

fun split_blank :: "string \<Rightarrow> string list" where
  "split_blank (a # b # cs) =
     (if a = NL \<and> b = NL then [] # split_blank cs
      else (case split_blank (b # cs) of
              [] \<Rightarrow> [[a]]
            | p # ps \<Rightarrow> (a # p) # ps))"
| "split_blank cs = [cs]"

text \<open>\<^verbatim>\<open>s.replace(c, new)\<close> for a single character \<open>c\<close>.\<close>

definition replace_char :: "char \<Rightarrow> string \<Rightarrow> string \<Rightarrow> string" where
  "replace_char c new s = concat (map (\<lambda>x. if x = c then new else [x]) s)"

definition escape_para :: "string \<Rightarrow> string" where
  \<open>escape_para p =
     replace_char (CHR 0x22) ''&quot;''
       (replace_char (CHR ''>'') ''&gt;''
         (replace_char (CHR ''<'') ''&lt;''
           (replace_char (CHR ''&'') ''&amp;'' p)))\<close>

fun html_blocks :: "string list \<Rightarrow> string list" where
  "html_blocks [] = []"
| "html_blocks (para # paras) =
     (let p = strip para
      in if p = [] then html_blocks paras
         else (''<p>'' @ replace_char NL ''<br/>'' (escape_para p) @ ''</p>'') # html_blocks paras)"

text \<open>\<^verbatim>\<open>re.sub(r"[<>&\"]", "", (title or "EPUB").strip())[:200]\<close>.\<close>

definition safe_title_of :: "string option \<Rightarrow> string" where
  \<open>safe_title_of title =
     take 200
       (filter (\<lambda>c. c \<noteq> CHR ''<'' \<and> c \<noteq> CHR ''>'' \<and> c \<noteq> CHR ''&'' \<and> c \<noteq> CHR 0x22)
         (strip (case title of
                   None \<Rightarrow> ''EPUB''
                 | Some t \<Rightarrow> (if t = [] then ''EPUB'' else t))))\<close>

text \<open>The document shell, cut at the three places where the f-string inserts a value.\<close>

definition shell_head :: string where
  \<open>shell_head =
     ''<!doctype html>\<newline>'' @
     ''<html lang="en">\<newline>'' @
     ''<head>\<newline>'' @
     ''  <meta charset="utf-8" />\<newline>'' @
     ''  <meta name="viewport" content="width=device-width,initial-scale=1" />\<newline>'' @
     ''  <title>''\<close>

definition shell_style :: string where
  \<open>shell_style =
     ''</title>\<newline>'' @
     ''  <style>\<newline>'' @
     ''    body {\<newline>'' @
     ''      font-family: Georgia, "Times New Roman", Times, serif;\<newline>'' @
     ''      margin: 42px;\<newline>'' @
     ''      line-height: 1.45;\<newline>'' @
     ''      color: #111;\<newline>'' @
     ''      max-width: 820px;\<newline>'' @
     ''    }\<newline>'' @
     ''    h1 {\<newline>'' @
     ''      font-family: system-ui, -apple-system, Segoe UI, Roboto, Arial, sans-serif;\<newline>'' @
     ''      font-size: 20px;\<newline>'' @
     ''      margin: 0 0 18px 0;\<newline>'' @
     ''    }\<newline>'' @
     ''    p { margin: 0 0 12px 0; }\<newline>'' @
     ''    @page { margin: 18mm; }\<newline>'' @
     ''  </style>\<newline>'' @
     ''</head>\<newline>'' @
     ''<body>\<newline>'' @
     ''  <h1>''\<close>

definition shell_body :: string where
  \<open>shell_body = ''</h1>\<newline>'' @ ''  ''\<close>

definition shell_tail :: string where
  \<open>shell_tail = ''\<newline>'' @ ''</body>\<newline>'' @ ''</html>\<newline>''\<close>

definition render_html :: "string option \<Rightarrow> string \<Rightarrow> string" where
  "render_html title txt =
     (let safe_title = safe_title_of title;
          body = join [NL] (html_blocks (split_blank txt))
      in shell_head @ safe_title @ shell_style @ safe_title @ shell_body @ body @ shell_tail)"

definition epub_to_html :: "stdlib \<Rightarrow> byte list option \<Rightarrow> error + string" where
  "epub_to_html L epub_bytes =
     (case epub_bytes of
        None \<Rightarrow> Inl ValueError
      | Some data \<Rightarrow>
          (case ZipFile L data of
             Inl e \<Rightarrow> Inl e
           | Inr zf \<Rightarrow>
               (case read_container_rootfile L zf of
                  Inl e \<Rightarrow> Inl e
                | Inr opf_path \<Rightarrow>
                    (case collect_xhtml_paths L zf opf_path of
                       (title, xhtml_paths) \<Rightarrow>
                         (case read_text_files L zf xhtml_paths of
                            Inl e \<Rightarrow> Inl e
                          | Inr files \<Rightarrow>
                              (case epub_to_txt L epub_bytes of
                                 Inl e \<Rightarrow> Inl e
                               | Inr txt \<Rightarrow> Inr (render_html title txt)))))))"


section \<open>An example library and example archives\<close>

text \<open>
  The examples below run the program on a few small archives. \<open>example_lib\<close> holds the
  standard library's answers on the byte strings and documents of these archives, as
  CPython 3.11 gives them; on every other input it answers \<open>Unlisted\<close>. \<open>ascii\<close> writes
  a byte string as its ASCII text; the members that stand for XML are named by a short
  tag, since the program sees their contents only through \<open>fromstring\<close>.
\<close>

definition ascii :: "string \<Rightarrow> byte list" where
  "ascii s = map of_char s"

text \<open>A book whose spine reads chapter 2, then the style sheet, chapter 1, an id the
  manifest does not have, and chapter 2 again.\<close>

definition book_container :: xmlroot where
  "book_container =
     \<lparr>find_rootfile = Some [''full-path'' \<mapsto> ''OEBPS/content.opf''],
      find_title = None, findall_items = [], findall_itemrefs = []\<rparr>"

definition book_opf :: xmlroot where
  \<open>book_opf =
     \<lparr>find_rootfile = None,
      find_title = Some (Some '' <Evil & "Title"> ''),
      findall_items =
        [[''id'' \<mapsto> ''c1'', ''href'' \<mapsto> ''text/ch1.xhtml'',
          ''media-type'' \<mapsto> ''application/xhtml+xml''],
         [''id'' \<mapsto> ''c2'', ''href'' \<mapsto> ''./text/../text/ch2.HTM''],
         [''id'' \<mapsto> ''css'', ''href'' \<mapsto> ''style.css'', ''media-type'' \<mapsto> ''text/css'']],
      findall_itemrefs =
        [[''idref'' \<mapsto> ''c2''], [''idref'' \<mapsto> ''css''], [''idref'' \<mapsto> ''c1''],
         [''idref'' \<mapsto> ''gone''], [''idref'' \<mapsto> ''c2'']]\<rparr>\<close>

definition book_zip :: zipfile where
  "book_zip =
     [(''mimetype'', Stored (ascii ''application/epub+zip'')),
      (''META-INF/container.xml'', Stored (ascii ''<container/>'')),
      (''OEBPS/content.opf'', Stored (ascii ''<package/>'')),
      (''OEBPS/text/ch1.xhtml'', Stored (ascii ''<div><p>X</div>'')),
      (''OEBPS/text/ch2.HTM'', Stored (ascii ''<script>ignored()</script>Visible'')),
      (''OEBPS/style.css'', Stored (ascii ''p {}''))]"

text \<open>An archive whose package document has a title and an empty spine, with two loose
  documents stored in the order \<open>b.html\<close>, \<open>a.xhtml\<close>; the second is the single byte
  \<open>0xE9\<close>, which is not UTF-8.\<close>

definition loose_container :: xmlroot where
  "loose_container =
     \<lparr>find_rootfile = Some [''full-path'' \<mapsto> ''content.opf''],
      find_title = None, findall_items = [], findall_itemrefs = []\<rparr>"

definition loose_opf :: xmlroot where
  "loose_opf =
     \<lparr>find_rootfile = None, find_title = Some (Some ''Loose Leaves''),
      findall_items = [], findall_itemrefs = []\<rparr>"

definition loose_zip :: zipfile where
  "loose_zip =
     [(''META-INF/container.xml'', Stored (ascii ''<container root=1/>'')),
      (''content.opf'', Stored (ascii ''<package spine=0/>'')),
      (''b.html'', Stored (ascii ''<p>A</p><p>B</p>'')),
      (''a.xhtml'', Stored [0xE9])]"

text \<open>An archive whose container file declares an encoding Python does not know.\<close>

definition badenc_zip :: zipfile where
  \<open>badenc_zip =
     [(''META-INF/container.xml'',
       Stored (ascii ''<?xml version="1.0" encoding="xxx"?><container/>'')),
      (''a.html'', Stored (ascii ''<p>A</p><p>B</p>''))]\<close>

text \<open>An archive of one document whose checksum does not match its contents, and an
  archive of one document that ends in a malformed marked section.\<close>

definition damaged_zip :: zipfile where
  "damaged_zip = [(''a.html'', BadChecksum)]"

definition marked_zip :: zipfile where
  "marked_zip = [(''a.html'', Stored (ascii ''<p>ok</p><![foo]>''))]"

definition example_lib :: stdlib where
  \<open>example_lib =
     \<lparr>ZipFile = (\<lambda>data.
        if data = ascii ''PK-book'' then Inr book_zip
        else if data = ascii ''PK-loose'' then Inr loose_zip
        else if data = ascii ''PK-badenc'' then Inr badenc_zip
        else if data = ascii ''PK-damaged'' then Inr damaged_zip
        else if data = ascii ''PK-marked'' then Inr marked_zip
        else if data = ascii ''not a zip'' then Inl BadZipFile
        else Inl Unlisted),
      fromstring = (\<lambda>data.
        if data = ascii ''<container/>'' then Inr book_container
        else if data = ascii ''<package/>'' then Inr book_opf
        else if data = ascii ''<container root=1/>'' then Inr loose_container
        else if data = ascii ''<package spine=0/>'' then Inr loose_opf
        else if data = ascii ''<?xml version="1.0" encoding="xxx"?><container/>''
        then Inl LookupError
        else Inl Unlisted),
      decode_utf8 = (\<lambda>raw.
        if list_all (\<lambda>b. b < 0x80) raw then Inr (decode_latin1 raw)
        else if raw = [0xE9] then Inl UnicodeDecodeError
        else Inl Unlisted),
      feed = (\<lambda>html.
        if html = [] then Inr []
        else if html = ''<div><p>X</div>''
        then Inr [StartTag ''div'' [], StartTag ''p'' [], Data ''X'', EndTag ''div'']
        else if html = ''<script>ignored()</script>Visible''
        then Inr [StartTag ''script'' [], Data ''ignored()'', EndTag ''script'',
                  Data ''Visible'']
        else if html = ''<p>A</p><p>B</p>''
        then Inr [StartTag ''p'' [], Data ''A'', EndTag ''p'',
                  StartTag ''p'' [], Data ''B'', EndTag ''p'']
        else if html = [CHR 0xE9] then Inr [Data [CHR 0xE9]]
        else if html = ''<![foo]>'' then Inl AssertionError
        else if html = ''<p>ok</p><![foo]>'' then Inl AssertionError
        else Inl Unlisted)\<rparr>\<close>

section \<open>The text extractor\<close>

subsection \<open>The callbacks return\<close>

lemma pop_to_returns: "i \<le> length st \<Longrightarrow> \<exists>st'. pop_to st tag i = Inr st'"
  by (induction i) auto

text \<open>An end tag that is open cuts the stack just below its last occurrence; one that
  is not open leaves the stack as it is.\<close>

lemma pop_to_absent:
  "i \<le> length st \<Longrightarrow> tag \<notin> set (take i st) \<Longrightarrow> pop_to st tag i = Inr st"
proof (induction i)
  case 0
  then show ?case by simp
next
  case (Suc i)
  then have "st ! i \<noteq> tag" and "tag \<notin> set (take i st)"
    by (auto simp: take_Suc_conv_app_nth)
  with Suc show ?case by simp
qed

lemma pop_to_last_occurrence:
  "i \<le> length st \<Longrightarrow> tag \<in> set (take i st) \<Longrightarrow>
   \<exists>pre post. take i st = pre @ tag # post \<and> tag \<notin> set post \<and> pop_to st tag i = Inr pre"
proof (induction i)
  case 0
  then show ?case by simp
next
  case (Suc i)
  then have split: "take (Suc i) st = take i st @ [st ! i]" and i: "i < length st"
    by (auto simp: take_Suc_conv_app_nth)
  show ?case
  proof (cases "st ! i = tag")
    case True
    then have "take (Suc i) st = take i st @ tag # []" and "pop_to st tag (Suc i) = Inr (take i st)"
      using split i by auto
    then show ?thesis by (metis empty_iff list.set(1))
  next
    case False
    then have "tag \<in> set (take i st)"
      using Suc.prems(2) split by auto
    then obtain pre post where
      "take i st = pre @ tag # post" "tag \<notin> set post" "pop_to st tag i = Inr pre"
      using Suc.IH i by auto
    then have "take (Suc i) st = pre @ tag # (post @ [st ! i])"
      and "tag \<notin> set (post @ [st ! i])"
      and "pop_to st tag (Suc i) = Inr pre"
      using split False i by auto
    then show ?thesis by blast
  qed
qed

lemma handle_starttag_returns: "\<exists>s. handle_starttag self tag at = Inr s"
  by (simp add: handle_starttag_def Let_def)

lemma handle_endtag_returns: "\<exists>s. handle_endtag self tag = Inr s"
proof -
  obtain st where "pop_to (stack self) (lower tag) (length (stack self)) = Inr st"
    using pop_to_returns [of "length (stack self)" "stack self" "lower tag"] by auto
  then show ?thesis by (simp add: handle_endtag_def Let_def)
qed

lemma handle_data_returns: "\<exists>s. handle_data self d = Inr s"
  by (simp add: handle_data_def)

lemma dispatch_returns: "\<exists>s. dispatch self ev = Inr s"
proof (cases ev)
  case (StartEndTag tag at)
  obtain s1 where "handle_starttag self tag at = Inr s1"
    using handle_starttag_returns by blast
  then show ?thesis
    using StartEndTag handle_endtag_returns [of s1 tag] by simp
qed (simp_all add: handle_starttag_returns handle_endtag_returns handle_data_returns)

lemma run_events_returns: "\<exists>s. run_events self evs = Inr s"
proof (induction evs arbitrary: self)
  case Nil
  then show ?case by simp
next
  case (Cons ev evs)
  obtain s1 where "dispatch self ev = Inr s1"
    using dispatch_returns by blast
  then show ?case using Cons [of s1] by simp
qed

lemma run_events_append:
  "run_events self (xs @ ys) =
     (case run_events self xs of Inl e \<Rightarrow> Inl e | Inr s \<Rightarrow> run_events s ys)"
  by (induction xs arbitrary: self) (auto split: sum.splits)

lemma html_to_text_returns:
  "feed L html = Inr evs \<Longrightarrow> \<exists>text. html_to_text L html = Inr text"
proof -
  assume "feed L html = Inr evs"
  moreover obtain s where "run_events init_extractor evs = Inr s"
    using run_events_returns by blast
  ultimately show ?thesis by (simp add: html_to_text_def)
qed

text \<open>\<open>_html_to_text\<close> raises exactly what the tokenizer raises.\<close>

lemma html_to_text_raises: "html_to_text L html = Inl e \<longleftrightarrow> feed L html = Inl e"
proof (cases "feed L html")
  case (Inl e')
  then show ?thesis by (simp add: html_to_text_def)
next
  case (Inr evs)
  then show ?thesis
    using html_to_text_returns [OF Inr] by auto
qed

lemmas extractor_defs =
  init_extractor_def handle_starttag_def handle_endtag_def handle_data_def
  in_script_or_style_def lower_def lower_char_def BLOCK_TAGS_def Let_def

lemmas get_text_defs =
  get_text_def strip_def is_space_def NL_def CR_def SP_def replace_cr_def is_hspace_def Let_def

lemma unbalanced_div_events:
  "run_events init_extractor
     [StartTag ''div'' [], StartTag ''p'' [], Data ''X'', EndTag ''div''] =
   Inr \<lparr>parts = [[NL], [NL], ''X'', [NL]], stack = []\<rparr>"
  by (simp add: extractor_defs)

lemma unbalanced_div_text:
  "get_text \<lparr>parts = [[NL], [NL], ''X'', [NL]], stack = []\<rparr> = ''X''"
  by (simp add: get_text_defs)

lemma script_events:
  "run_events init_extractor
     [StartTag ''script'' [], Data ''ignored()'', EndTag ''script'', Data ''Visible''] =
   Inr \<lparr>parts = [''Visible''], stack = []\<rparr>"
  by (simp add: extractor_defs)

lemma script_text: "get_text \<lparr>parts = [''Visible''], stack = []\<rparr> = ''Visible''"
  by (simp add: get_text_defs)

text \<open>
  C4 (as the code has it). None of the extractor's callbacks raises, whatever the
  callbacks and their order (the index loop of \<open>handle_endtag\<close> never reads outside the
  stack). So \<open>_html_to_text\<close> raises exactly when the tokenizer raises, and then the
  same exception, for it has no handler; whenever the tokenizer returns, start and end
  tags in any order and nesting, closed or not, it returns a text, the empty one when
  there was no callback. On the callbacks of \<^verbatim>\<open><div><p>X</div>\<close> (two start tags, the
  text, the end tag of the outer one) the text is \<open>X\<close>.
\<close>

theorem html_to_text_raises_with_feed:
  "(\<exists>parser. run_events self evs = Inr parser) \<and>
   (html_to_text L html = Inl e \<longleftrightarrow> feed L html = Inl e) \<and>
   (feed L html = Inr evs \<longrightarrow> (\<exists>text. html_to_text L html = Inr text)) \<and>
   (feed L html = Inr [] \<longrightarrow> html_to_text L html = Inr []) \<and>
   (feed L ''<div><p>X</div>'' =
      Inr [StartTag ''div'' [], StartTag ''p'' [], Data ''X'', EndTag ''div'']
    \<longrightarrow> html_to_text L ''<div><p>X</div>'' = Inr ''X'')"
proof (intro conjI impI)
  show "\<exists>parser. run_events self evs = Inr parser"
    by (rule run_events_returns)
  show "html_to_text L html = Inl e \<longleftrightarrow> feed L html = Inl e"
    by (rule html_to_text_raises)
  show "\<exists>text. html_to_text L html = Inr text" if "feed L html = Inr evs"
    using that by (rule html_to_text_returns)
  show "html_to_text L html = Inr []" if "feed L html = Inr []"
    using that by (simp add: html_to_text_def init_extractor_def get_text_defs)
  show "html_to_text L ''<div><p>X</div>'' = Inr ''X''"
    if "feed L ''<div><p>X</div>'' =
      Inr [StartTag ''div'' [], StartTag ''p'' [], Data ''X'', EndTag ''div'']"
    unfolding html_to_text_def that sum.case unbalanced_div_events
    by (simp add: unbalanced_div_text)
qed

theorem html_to_text_raises_with_feed_witness:
  "html_to_text example_lib ''<div><p>X</div>'' = Inr ''X'' \<and>
   html_to_text example_lib [] = Inr []"
  using html_to_text_raises_with_feed [of init_extractor "[]" example_lib "[]"]
  by (simp add: example_lib_def)

text \<open>
  The claim as the specification states it fails on a document the tokenizer itself
  rejects: on \<^verbatim>\<open><![foo]>\<close> \<^verbatim>\<open>HTMLParser.feed\<close> raises \<^verbatim>\<open>AssertionError\<close>, and so does
  \<open>_html_to_text\<close>; from a document of an archive the exception leaves \<open>epub_to_txt\<close>.
\<close>

theorem html_to_text_marked_section_counterexample:
  "feed example_lib ''<![foo]>'' = Inl AssertionError \<and>
   html_to_text example_lib ''<![foo]>'' = Inl AssertionError \<and>
   \<not> (\<exists>text. html_to_text example_lib ''<![foo]>'' = Inr text) \<and>
   epub_to_txt example_lib (Some (ascii ''PK-marked'')) = Inl AssertionError"
proof (intro conjI)
  show "epub_to_txt example_lib (Some (ascii ''PK-marked'')) = Inl AssertionError"
    by code_simp
qed (simp_all add: html_to_text_def example_lib_def)

subsection \<open>Text inside script and style\<close>

lemma handle_data_suppressed:
  "in_script_or_style (stack self) \<Longrightarrow> handle_data self d = Inr self"
  by (simp add: handle_data_def)

text \<open>
  C6. Text that arrives while \<open>script\<close> or \<open>style\<close> is on the stack is discarded: the
  callback leaves the extractor as it was, so the whole run, and with it the extracted
  text, is what it would be had the tokenizer not delivered that text at all. On the
  callbacks of \<^verbatim>\<open><script>ignored()</script>Visible\<close> the text is exactly \<open>Visible\<close>.
\<close>

theorem script_style_text_discarded:
  "(in_script_or_style (stack self) \<longrightarrow> handle_data self d = Inr self) \<and>
   (run_events init_extractor pre = Inr self \<and> in_script_or_style (stack self) \<longrightarrow>
      run_events init_extractor (pre @ Data d # post) = run_events init_extractor (pre @ post)) \<and>
   (feed L html = Inr (pre @ Data d # post) \<and> feed L html' = Inr (pre @ post) \<and>
    run_events init_extractor pre = Inr self \<and> in_script_or_style (stack self) \<longrightarrow>
      html_to_text L html = html_to_text L html') \<and>
   (feed L ''<script>ignored()</script>Visible'' =
      Inr [StartTag ''script'' [], Data ''ignored()'', EndTag ''script'', Data ''Visible'']
    \<longrightarrow> html_to_text L ''<script>ignored()</script>Visible'' = Inr ''Visible'')"
proof (intro conjI impI)
  show "handle_data self d = Inr self" if "in_script_or_style (stack self)"
    using that by (rule handle_data_suppressed)
  show skip: "run_events init_extractor (pre @ Data d # post) = run_events init_extractor (pre @ post)"
    if "run_events init_extractor pre = Inr self \<and> in_script_or_style (stack self)" for pre self
    using that by (simp add: run_events_append handle_data_suppressed)
  show "html_to_text L html = html_to_text L html'"
    if "feed L html = Inr (pre @ Data d # post) \<and> feed L html' = Inr (pre @ post) \<and>
        run_events init_extractor pre = Inr self \<and> in_script_or_style (stack self)"
    using that skip [of pre self] by (simp add: html_to_text_def)
  show "html_to_text L ''<script>ignored()</script>Visible'' = Inr ''Visible''"
    if "feed L ''<script>ignored()</script>Visible'' =
      Inr [StartTag ''script'' [], Data ''ignored()'', EndTag ''script'', Data ''Visible'']"
    unfolding html_to_text_def that sum.case script_events
    by (simp add: script_text)
qed

theorem script_style_text_discarded_witness:
  "html_to_text example_lib ''<script>ignored()</script>Visible'' = Inr ''Visible'' \<and>
   in_script_or_style (stack \<lparr>parts = [], stack = [''script'']\<rparr>) \<and>
   run_events init_extractor [StartTag ''script'' [], Data ''ignored()'', EndTag ''script''] =
   run_events init_extractor [StartTag ''script'' [], EndTag ''script'']"
  using script_style_text_discarded
    [of "\<lparr>parts = [], stack = [''script'']\<rparr>" "''ignored()''" "[StartTag ''script'' []]"
        "[EndTag ''script'']" example_lib "[]" "[]"]
  by (simp add: example_lib_def extractor_defs)

section \<open>Path resolution\<close>

lemma split_char_not_Nil: "split_char c s \<noteq> []"
  by (induction s) (auto split: list.splits)

lemma split_char_no_sep: "seg \<in> set (split_char c s) \<Longrightarrow> c \<notin> set seg"
  by (induction s arbitrary: seg) (auto split: list.splits if_splits)

lemma split_char_append:
  "split_char c (xs @ c # ys) = split_char c xs @ split_char c ys"
  by (induction xs) (auto split: list.splits simp: split_char_not_Nil)

lemma join_split_char: "join [c] (split_char c s) = s"
proof (induction s)
  case Nil
  then show ?case by simp
next
  case (Cons x xs)
  obtain p ps where ps: "split_char c xs = p # ps"
    using split_char_not_Nil [of c xs] by (cases "split_char c xs") auto
  show ?case
  proof (cases "x = c")
    case True
    then show ?thesis using Cons ps by simp
  next
    case False
    then show ?thesis using Cons ps by (cases ps) auto
  qed
qed

lemma split_char_one: "c \<notin> set x \<Longrightarrow> split_char c x = [x]"
  by (induction x) auto

lemma split_char_prefix: "c \<notin> set x \<Longrightarrow> split_char c (x @ c # zs) = x # split_char c zs"
  by (simp add: split_char_append split_char_one)

lemma split_char_join:
  "ps \<noteq> [] \<Longrightarrow> \<forall>p\<in>set ps. c \<notin> set p \<Longrightarrow> split_char c (join [c] ps) = ps"
proof (induction ps)
  case Nil
  then show ?case by simp
next
  case (Cons x ps)
  show ?case
  proof (cases ps)
    case Nil
    then show ?thesis using Cons.prems by (simp add: split_char_one)
  next
    case (Cons y ys)
    then have "split_char c (join [c] ps) = ps"
      using Cons.IH Cons.prems by simp
    then show ?thesis
      using Cons Cons.prems by (simp add: split_char_prefix)
  qed
qed

lemma rsplit1_head_append: "c \<notin> set file \<Longrightarrow> rsplit1_head c (dir @ c # file) = dir"
proof -
  assume "c \<notin> set file"
  then have "dropWhile (\<lambda>x. x \<noteq> c) (rev file @ c # rev dir) = c # rev dir"
    by (subst dropWhile_append2) auto
  then show ?thesis by (simp add: rsplit1_head_def)
qed

lemma norm_step_plain:
  "list_all plain_segment ps \<Longrightarrow> list_all plain_segment (norm_step ps p)"
  by (auto simp: norm_step_def plain_segment_def list_all_iff dest: in_set_butlastD)

lemma norm_step_subset: "set (norm_step ps p) \<subseteq> set ps \<union> {p}"
  by (auto simp: norm_step_def dest: in_set_butlastD)

lemma foldl_norm_step_plain:
  "list_all plain_segment ps \<Longrightarrow> list_all plain_segment (foldl norm_step ps segs)"
  by (induction segs arbitrary: ps) (auto simp: norm_step_plain)

lemma foldl_norm_step_subset: "set (foldl norm_step ps segs) \<subseteq> set ps \<union> set segs"
proof (induction segs arbitrary: ps)
  case Nil
  then show ?case by simp
next
  case (Cons s segs)
  then show ?case using norm_step_subset [of ps s] by fastforce
qed

lemma foldl_norm_step_id:
  "list_all plain_segment segs \<Longrightarrow> foldl norm_step ps segs = ps @ segs"
  by (induction segs arbitrary: ps) (auto simp: norm_step_def plain_segment_def)

lemma join_path_slash:
  "CHR ''/'' \<in> set base \<Longrightarrow>
   join_path base rel =
     join ''/'' (foldl norm_step []
       (split_char (CHR ''/'') (rsplit1_head (CHR ''/'') base @ ''/'' @ rel)))"
  by (auto simp: join_path_def Let_def)

lemma join_path_segments:
  assumes "CHR ''/'' \<in> set base"
  shows "join_path base rel = [] \<or>
         list_all plain_segment (split_char (CHR ''/'') (join_path base rel))"
proof -
  let ?ps = "foldl norm_step []
       (split_char (CHR ''/'') (rsplit1_head (CHR ''/'') base @ ''/'' @ rel))"
  have plain: "list_all plain_segment ?ps"
    by (rule foldl_norm_step_plain) simp
  have nosep: "CHR ''/'' \<notin> set p" if "p \<in> set ?ps" for p
    using that foldl_norm_step_subset [of "[]"] split_char_no_sep by fastforce
  show ?thesis
  proof (cases "?ps = []")
    case True
    then show ?thesis using assms by (simp add: join_path_slash)
  next
    case False
    then have "split_char (CHR ''/'') (join ''/'' ?ps) = ?ps"
      using split_char_join [of ?ps "CHR ''/''"] nosep by blast
    then show ?thesis using assms plain by (simp add: join_path_slash)
  qed
qed

lemma join_path_plain:
  assumes "CHR ''/'' \<notin> set file"
    and "list_all plain_segment (split_char (CHR ''/'') dir)"
    and "list_all plain_segment (split_char (CHR ''/'') rel)"
  shows "join_path (dir @ ''/'' @ file) rel = dir @ ''/'' @ rel"
proof -
  have "join_path (dir @ ''/'' @ file) rel =
        join ''/'' (foldl norm_step [] (split_char (CHR ''/'') (dir @ ''/'' @ rel)))"
    using assms(1) by (simp add: join_path_slash rsplit1_head_append)
  also have "foldl norm_step [] (split_char (CHR ''/'') (dir @ ''/'' @ rel)) =
             split_char (CHR ''/'') (dir @ ''/'' @ rel)"
    using assms(2,3) by (simp add: split_char_append foldl_norm_step_id)
  finally show ?thesis by (simp add: join_split_char)
qed

text \<open>
  C5 (as the code has it). A package document at the archive root (a path with no
  \<open>/\<close>, or the empty path) leaves the href as it is, \<open>.\<close> and \<open>..\<close> segments included.
  For a package document in a directory, the href is resolved against that directory:
  the segments of directory and href are read from the left, empty segments and \<open>.\<close>
  are skipped, \<open>..\<close> drops the last segment kept and does nothing when none is kept, any
  other segment is kept; so the resolved path is empty or has no empty, \<open>.\<close> or \<open>..\<close>
  segment, and it is directory, \<open>/\<close>, href when neither has such segments.
\<close>

theorem join_path_resolves:
  "(CHR ''/'' \<notin> set base \<longrightarrow> join_path base rel = rel) \<and>
   (CHR ''/'' \<in> set base \<longrightarrow>
      join_path base rel =
        join ''/'' (foldl norm_step []
          (split_char (CHR ''/'') (rsplit1_head (CHR ''/'') base @ ''/'' @ rel))) \<and>
      (join_path base rel = [] \<or>
       list_all plain_segment (split_char (CHR ''/'') (join_path base rel)))) \<and>
   foldl norm_step [] (segs @ [[]]) = foldl norm_step [] segs \<and>
   foldl norm_step [] (segs @ [''.'']) = foldl norm_step [] segs \<and>
   foldl norm_step [] (segs @ [''..'']) = butlast (foldl norm_step [] segs) \<and>
   foldl norm_step [] [''..''] = [] \<and>
   (plain_segment seg \<longrightarrow> foldl norm_step [] (segs @ [seg]) = foldl norm_step [] segs @ [seg]) \<and>
   (CHR ''/'' \<notin> set file \<and> list_all plain_segment (split_char (CHR ''/'') dir) \<and>
    list_all plain_segment (split_char (CHR ''/'') rel) \<longrightarrow>
      join_path (dir @ ''/'' @ file) rel = dir @ ''/'' @ rel)"
proof (intro conjI impI)
  show "join_path base rel = rel" if "CHR ''/'' \<notin> set base"
    using that by (simp add: join_path_def)
  show "join_path base rel =
        join ''/'' (foldl norm_step []
          (split_char (CHR ''/'') (rsplit1_head (CHR ''/'') base @ ''/'' @ rel)))"
    if "CHR ''/'' \<in> set base"
    using that by (rule join_path_slash)
  show "join_path base rel = [] \<or>
       list_all plain_segment (split_char (CHR ''/'') (join_path base rel))"
    if "CHR ''/'' \<in> set base"
    using that by (rule join_path_segments)
  show "foldl norm_step [] (segs @ [[]]) = foldl norm_step [] segs"
    by (simp add: norm_step_def)
  show "foldl norm_step [] (segs @ [''.'']) = foldl norm_step [] segs"
    by (simp add: norm_step_def)
  show "foldl norm_step [] (segs @ [''..'']) = butlast (foldl norm_step [] segs)"
    by (simp add: norm_step_def)
  show "foldl norm_step [] [''..''] = []"
    by (simp add: norm_step_def)
  show "foldl norm_step [] (segs @ [seg]) = foldl norm_step [] segs @ [seg]"
    if "plain_segment seg"
    using that by (simp add: norm_step_def plain_segment_def)
  show "join_path (dir @ ''/'' @ file) rel = dir @ ''/'' @ rel"
    if "CHR ''/'' \<notin> set file \<and> list_all plain_segment (split_char (CHR ''/'') dir) \<and>
        list_all plain_segment (split_char (CHR ''/'') rel)"
    using that join_path_plain by blast
qed

theorem join_path_resolves_witness:
  "join_path ''content.opf'' ''./ch1.xhtml'' = ''./ch1.xhtml'' \<and>
   join_path ''OEBPS/content.opf'' ''../../x/./ch1.xhtml'' = ''x/ch1.xhtml'' \<and>
   join_path ''OEBPS/content.opf'' ''text/ch1.xhtml'' = ''OEBPS/text/ch1.xhtml'' \<and>
   plain_segment ''x''"
  using join_path_resolves [of "''content.opf''" "''./ch1.xhtml''" "[]" "''x''" "''content.opf''" "''OEBPS''"]
    join_path_resolves [of "''OEBPS/content.opf''" "''../../x/./ch1.xhtml''" "[]" "''x''" "''content.opf''" "''OEBPS''"]
    join_path_resolves [of "''OEBPS/content.opf''" "''text/ch1.xhtml''" "[]" "''x''" "''content.opf''" "''OEBPS''"]
  by (simp add: plain_segment_def rsplit1_head_def norm_step_def)

text \<open>
  The claim as the specification states it fails for a package document at the archive
  root: the href \<open>../a.html\<close> is returned unchanged, \<open>..\<close> segment and all.
\<close>

theorem join_path_root_counterexample:
  "join_path ''content.opf'' ''../a.html'' = ''../a.html'' \<and>
   ''..'' \<in> set (split_char (CHR ''/'') (join_path ''content.opf'' ''../a.html'')) \<and>
   join_path ''content.opf'' ''../a.html'' \<noteq>
     join ''/'' (foldl norm_step [] (split_char (CHR ''/'') ''../a.html''))"
  by (simp add: join_path_def norm_step_def)

section \<open>The reading order\<close>

lemma spine_loop:
  "foldl (spine_step p m) acc ids = acc @ spine_documents p m ids"
proof (induction ids arbitrary: acc)
  case Nil
  then show ?case by (simp add: spine_documents_def map_filter_simps)
next
  case (Cons sid ids)
  show ?case
  proof (cases "m sid")
    case None
    then show ?thesis
      using Cons [of acc] by (simp add: spine_step_def spine_documents_def map_filter_simps)
  next
    case (Some entry)
    obtain href media_type where entry: "entry = (href, media_type)"
      by (cases entry)
    show ?thesis
      using Cons [of "spine_step p m acc sid"] Some entry
      by (simp add: spine_step_def spine_documents_def map_filter_simps html_like_def)
  qed
qed

lemma spine_documents_append:
  "spine_documents p m (xs @ ys) = spine_documents p m xs @ spine_documents p m ys"
  by (simp add: spine_documents_def List.map_filter_def)

lemma spine_paths_Some:
  assumes "p \<noteq> []" and "parse_opf L zf p = Inr (title, m, ids)"
  shows "spine_paths L zf (Some p) =
           (if spine_documents p m ids \<noteq> [] then Some (title, spine_documents p m ids) else None)"
  using assms by (simp add: spine_paths_def spine_loop Let_def)

lemma spine_paths_falls_back:
  "spine_paths L zf opf_path = None \<longleftrightarrow> falls_back L zf opf_path"
proof (cases opf_path)
  case None
  then show ?thesis by (simp add: spine_paths_def falls_back_def)
next
  case (Some p)
  show ?thesis
  proof (cases "parse_opf L zf p")
    case (Inl e)
    then show ?thesis
      using Some by (simp add: spine_paths_def falls_back_def spine_loop spine_documents_def map_filter_simps)
  next
    case (Inr r)
    obtain title m ids where "r = (title, m, ids)"
      by (cases r) auto
    then show ?thesis
      using Some Inr by (simp add: spine_paths_def falls_back_def spine_loop Let_def)
  qed
qed

text \<open>
  C2. When the package document parses and its spine names at least one manifest entry
  accepted as HTML-like, the collector returns the title and exactly the accepted
  entries' resolved paths in spine order. The list follows the spine piece by piece (the
  documents of two spines in a row are the documents of the first followed by those of
  the second), so an id the spine repeats is listed again, and nothing is sorted.
\<close>

theorem spine_order_preserved:
  assumes "opf_path \<noteq> []"
    and "parse_opf L zf opf_path = Inr (title, manifest, spine_ids)"
    and "spine_documents opf_path manifest spine_ids \<noteq> []"
  shows "collect_xhtml_paths L zf (Some opf_path) =
           (title, spine_documents opf_path manifest spine_ids) \<and>
         spine_documents opf_path manifest (xs @ ys) =
           spine_documents opf_path manifest xs @ spine_documents opf_path manifest ys \<and>
         spine_documents opf_path manifest [sid] =
           (case manifest sid of
              None \<Rightarrow> []
            | Some (href, media_type) \<Rightarrow>
                (if contains media_type ''html'' \<or> html_ext href
                 then [join_path opf_path href] else []))"
proof (intro conjI)
  show "collect_xhtml_paths L zf (Some opf_path) =
          (title, spine_documents opf_path manifest spine_ids)"
    using assms by (simp add: collect_xhtml_paths_def spine_paths_Some)
  show "spine_documents opf_path manifest (xs @ ys) =
          spine_documents opf_path manifest xs @ spine_documents opf_path manifest ys"
    by (rule spine_documents_append)
  show "spine_documents opf_path manifest [sid] =
          (case manifest sid of
             None \<Rightarrow> []
           | Some (href, media_type) \<Rightarrow>
               (if contains media_type ''html'' \<or> html_ext href
                then [join_path opf_path href] else []))"
    by (simp add: spine_documents_def map_filter_simps html_like_def split: option.splits)
qed

lemmas parse_defs =
  parse_opf_def zf_read_def add_item_def add_itemref_def ascii_def strip_def is_space_def
  Let_def

lemma book_parse:
  "parse_opf example_lib book_zip ''OEBPS/content.opf'' =
     Inr (Some ''<Evil & \"Title\">'',
          foldl add_item Map.empty (findall_items book_opf),
          [''c2'', ''css'', ''c1'', ''gone'', ''c2''])"
  by (simp add: parse_defs example_lib_def book_zip_def book_opf_def)


lemma book_documents:
  "spine_documents ''OEBPS/content.opf'' (foldl add_item Map.empty (findall_items book_opf))
     [''c2'', ''css'', ''c1'', ''gone'', ''c2''] =
   [''OEBPS/text/ch2.HTM'', ''OEBPS/text/ch1.xhtml'', ''OEBPS/text/ch2.HTM'']"
  by code_simp

theorem spine_order_preserved_witness:
  "collect_xhtml_paths example_lib book_zip (Some ''OEBPS/content.opf'') =
     (Some ''<Evil & \"Title\">'',
      [''OEBPS/text/ch2.HTM'', ''OEBPS/text/ch1.xhtml'', ''OEBPS/text/ch2.HTM''])"
  using spine_order_preserved [OF _ book_parse, of "[]" "[]" "[]"] book_documents
  by simp

subsection \<open>The scan of the archive\<close>

lemma endswith_lower:
  "endswith (lower name) ext \<longleftrightarrow> (\<exists>pre suf. name = pre @ suf \<and> lower suf = ext)"
proof
  assume e: "endswith (lower name) ext"
  let ?k = "length name - length ext"
  have "name = take ?k name @ drop ?k name" by simp
  moreover have "lower (drop ?k name) = ext"
    using e by (simp add: endswith_def lower_def drop_map)
  ultimately show "\<exists>pre suf. name = pre @ suf \<and> lower suf = ext" by blast
next
  assume "\<exists>pre suf. name = pre @ suf \<and> lower suf = ext"
  then obtain pre suf where "name = pre @ suf" "lower suf = ext" by blast
  then show "endswith (lower name) ext"
    by (auto simp: endswith_def lower_def)
qed

lemma html_ext_iff:
  "html_ext name \<longleftrightarrow>
     (\<exists>pre suf. name = pre @ suf \<and>
        (lower suf = ''.xhtml'' \<or> lower suf = ''.html'' \<or> lower suf = ''.htm''))"
  unfolding html_ext_def Let_def endswith_lower by blast

lemma sort_filter_perm:
  fixes names names' :: "string list"
  assumes "mset names' = mset names"
  shows "sort (filter P names') = sort (filter P names)"
proof -
  have "mset (filter P names') = mset (filter P names)"
    using assms by (simp add: mset_filter)
  then have "mset (sort (filter P names)) = mset (filter P names')"
    by simp
  then show ?thesis
    using properties_for_sort [of "sort (filter P names)" "filter P names'"] by simp
qed

text \<open>
  C3. When there is no package pointer, or the package document does not parse, or
  the spine yields no document, the collector returns no title and the archive's entry
  names that end, in any mix of cases, in \<open>.xhtml\<close>, \<open>.html\<close> or \<open>.htm\<close>, sorted: the list
  is in ascending lexicographic order, holds each such name as often as the archive
  lists it, and is the same for every order in which the archive lists its names.
\<close>

theorem fallback_scan_sorted:
  assumes "falls_back L zf opf_path"
  shows "collect_xhtml_paths L zf opf_path = (None, sort (filter html_ext (namelist zf))) \<and>
         sorted (snd (collect_xhtml_paths L zf opf_path)) \<and>
         mset (snd (collect_xhtml_paths L zf opf_path)) =
           filter_mset
             (\<lambda>name. \<exists>pre suf. name = pre @ suf \<and>
                (lower suf = ''.xhtml'' \<or> lower suf = ''.html'' \<or> lower suf = ''.htm''))
             (mset (namelist zf)) \<and>
         (\<forall>names'. mset names' = mset (namelist zf) \<longrightarrow>
            sort (filter html_ext names') = snd (collect_xhtml_paths L zf opf_path))"
proof (intro conjI allI impI)
  show c: "collect_xhtml_paths L zf opf_path = (None, sort (filter html_ext (namelist zf)))"
    using assms spine_paths_falls_back [of L zf opf_path]
    by (simp add: collect_xhtml_paths_def)
  show "sorted (snd (collect_xhtml_paths L zf opf_path))"
    unfolding c by simp
  have "filter_mset html_ext (mset (namelist zf)) =
           filter_mset
             (\<lambda>name. \<exists>pre suf. name = pre @ suf \<and>
                (lower suf = ''.xhtml'' \<or> lower suf = ''.html'' \<or> lower suf = ''.htm''))
             (mset (namelist zf))"
    by (rule filter_mset_cong) (simp_all only: html_ext_iff)
  then show "mset (snd (collect_xhtml_paths L zf opf_path)) =
           filter_mset
             (\<lambda>name. \<exists>pre suf. name = pre @ suf \<and>
                (lower suf = ''.xhtml'' \<or> lower suf = ''.html'' \<or> lower suf = ''.htm''))
             (mset (namelist zf))"
    unfolding c by (simp only: snd_conv mset_sort mset_filter)
  show "sort (filter html_ext names') = snd (collect_xhtml_paths L zf opf_path)"
    if "mset names' = mset (namelist zf)" for names'
    unfolding c snd_conv using that by (rule sort_filter_perm)
qed

lemma loose_parse:
  "parse_opf example_lib loose_zip ''content.opf'' = Inr (Some ''Loose Leaves'', Map.empty, [])"
  by (simp add: parse_defs example_lib_def loose_zip_def loose_opf_def)

theorem fallback_scan_sorted_witness:
  "falls_back example_lib loose_zip (Some ''content.opf'') \<and>
   namelist loose_zip = [''META-INF/container.xml'', ''content.opf'', ''b.html'', ''a.xhtml''] \<and>
   collect_xhtml_paths example_lib loose_zip (Some ''content.opf'') =
     (None, [''a.xhtml'', ''b.html'']) \<and>
   falls_back example_lib book_zip None \<and>
   collect_xhtml_paths example_lib book_zip None =
     (None, [''OEBPS/text/ch1.xhtml'', ''OEBPS/text/ch2.HTM''])"
proof -
  have f: "falls_back example_lib loose_zip (Some ''content.opf'')"
    by (simp add: falls_back_def loose_parse spine_documents_def map_filter_simps)
  have g: "falls_back example_lib book_zip None"
    by (simp add: falls_back_def)
  have n: "namelist loose_zip = [''META-INF/container.xml'', ''content.opf'', ''b.html'', ''a.xhtml'']"
    by (simp add: namelist_def loose_zip_def)
  have s: "sort (filter html_ext (namelist loose_zip)) = [''a.xhtml'', ''b.html'']"
    by code_simp
  have t: "sort (filter html_ext (namelist book_zip)) =
             [''OEBPS/text/ch1.xhtml'', ''OEBPS/text/ch2.HTM'']"
    by code_simp
  have "collect_xhtml_paths example_lib loose_zip (Some ''content.opf'') =
          (None, [''a.xhtml'', ''b.html''])"
    using fallback_scan_sorted [OF f, THEN conjunct1] s by simp
  moreover have "collect_xhtml_paths example_lib book_zip None =
          (None, [''OEBPS/text/ch1.xhtml'', ''OEBPS/text/ch2.HTM''])"
    using fallback_scan_sorted [OF g, THEN conjunct1] t by simp
  ultimately show ?thesis
    using f g n by simp
qed

section \<open>Reading and decoding the documents\<close>

lemma member_read_not_KeyError: "member_read m \<noteq> Inl KeyError"
  by (cases m) auto

lemma zf_read_absent: "zf_read zf name = Inl KeyError \<longleftrightarrow> name \<notin> set (namelist zf)"
proof -
  have "map_of (rev zf) name = None \<longleftrightarrow> name \<notin> fst ` set (rev zf)"
    by (rule map_of_eq_None_iff)
  then show ?thesis
    by (auto simp: zf_read_def namelist_def member_read_not_KeyError split: option.splits)
qed

lemma decode_latin1_bytes:
  "length (decode_latin1 raw) = length raw \<and> map of_char (decode_latin1 raw) = map unat raw"
proof -
  have "of_char (char_of (unat b)) = unat b" for b :: byte
    using unsigned_less [of b, where ?'a = nat] by simp
  then show ?thesis
    by (simp add: decode_latin1_def)
qed

lemma decode_text_result:
  "decode_text L raw = Inr s \<longleftrightarrow>
     decode_utf8 L raw = Inr s \<or>
     (decode_utf8 L raw = Inl UnicodeDecodeError \<and> s = decode_latin1 raw)"
  by (auto simp: decode_text_def split: sum.splits)

lemma decode_text_raises:
  "decode_text L raw = Inl e \<longleftrightarrow> decode_utf8 L raw = Inl e \<and> e \<noteq> UnicodeDecodeError"
  by (auto simp: decode_text_def split: sum.splits)

text \<open>
  What \<^verbatim>\<open>_read_text_files\<close> returns when it returns: in order, the paths that name a
  member of the archive (a path that names none is skipped), each with the text of its
  bytes, the UTF-8 reading when the strict decoder accepts them and otherwise the
  Latin-1 reading, one character per byte.
\<close>

lemma read_text_files_result:
  "read_text_files L zf paths = Inr out \<Longrightarrow>
     map fst out = filter (\<lambda>p. p \<in> set (namelist zf)) paths \<and>
     list_all
       (\<lambda>(p, s). \<exists>raw. zf_read zf p = Inr raw \<and>
          (decode_utf8 L raw = Inr s \<or>
           (decode_utf8 L raw = Inl UnicodeDecodeError \<and> s = decode_latin1 raw \<and>
            length s = length raw \<and> map of_char s = map unat raw)))
       out"
proof (induction paths arbitrary: out)
  case Nil
  then show ?case by auto
next
  case (Cons p ps)
  show ?case
  proof (cases "zf_read zf p")
    case (Inl e)
    then have k: "e = KeyError" and rest: "read_text_files L zf ps = Inr out"
      using Cons.prems by (auto split: if_splits)
    then have "p \<notin> set (namelist zf)"
      using Inl zf_read_absent by blast
    then show ?thesis
      using Cons.IH [OF rest] by simp
  next
    case (Inr raw)
    then have here: "p \<in> set (namelist zf)"
      using zf_read_absent [of zf p] by auto
    obtain s where s: "decode_text L raw = Inr s"
      using Cons.prems Inr by (cases "decode_text L raw") auto
    obtain out' where rest: "read_text_files L zf ps = Inr out'"
      using Cons.prems Inr s by (cases "read_text_files L zf ps") auto
    have out: "out = (p, s) # out'"
      using Cons.prems Inr s rest by simp
    show ?thesis
      using Cons.IH [OF rest] here out Inr s decode_latin1_bytes [of raw]
      by (auto simp: decode_text_result)
  qed
qed

text \<open>And when it raises: a member it was to read is there and cannot be read, or
  the decoder raised something other than \<^verbatim>\<open>UnicodeDecodeError\<close>.\<close>

lemma read_text_files_raises:
  "read_text_files L zf paths = Inl e \<Longrightarrow>
     \<exists>p \<in> set paths.
       (zf_read zf p = Inl e \<and> e \<noteq> KeyError) \<or>
       (\<exists>raw. zf_read zf p = Inr raw \<and> decode_utf8 L raw = Inl e \<and> e \<noteq> UnicodeDecodeError)"
proof (induction paths)
  case Nil
  then show ?case by simp
next
  case (Cons p ps)
  show ?case
  proof (cases "zf_read zf p")
    case (Inl e')
    then show ?thesis
      using Cons by (auto split: if_splits)
  next
    case (Inr raw)
    show ?thesis
    proof (cases "decode_text L raw")
      case (Inl e')
      then have "e' = e"
        using Cons.prems Inr by simp
      then show ?thesis
        using Inl Inr decode_text_raises [of L raw e] by auto
    next
      case s: (Inr s)
      then have "read_text_files L zf ps = Inl e"
        using Cons.prems Inr by (cases "read_text_files L zf ps") auto
      then show ?thesis
        using Cons.IH by auto
    qed
  qed
qed

text \<open>
  C9 fails on the code. \<open>damaged_zip\<close> is a valid zip that lists one document,
  \<open>a.html\<close>, whose stored checksum does not match; \<^verbatim>\<open>zf.read\<close> raises \<^verbatim>\<open>BadZipFile\<close> on
  it. \<^verbatim>\<open>_read_text_files\<close> catches \<^verbatim>\<open>KeyError\<close> only, so reading the documents raises
  instead of skipping the member, and the exception leaves \<open>epub_to_txt\<close>.
\<close>

theorem unreadable_member_escapes:
  "ZipFile example_lib (ascii ''PK-damaged'') = Inr damaged_zip \<and>
   collect_xhtml_paths example_lib damaged_zip None = (None, [''a.html'']) \<and>
   zf_read damaged_zip ''a.html'' = Inl BadZipFile \<and>
   read_text_files example_lib damaged_zip [''a.html''] = Inl BadZipFile \<and>
   epub_to_txt example_lib (Some (ascii ''PK-damaged'')) = Inl BadZipFile"
  by code_simp

section \<open>The entry points\<close>

lemma epub_to_txt_no_bytes: "epub_to_txt L None = Inl ValueError"
  by (simp add: epub_to_txt_def)

lemma epub_to_html_no_bytes: "epub_to_html L None = Inl ValueError"
  by (simp add: epub_to_html_def)

lemma epub_to_txt_not_zip: "ZipFile L data = Inl e \<Longrightarrow> epub_to_txt L (Some data) = Inl e"
  by (simp add: epub_to_txt_def)

text \<open>The container file raises when it is there and cannot be read, or when
  \<open>fromstring\<close> raises something other than \<open>ParseError\<close> on it.\<close>

lemma read_container_rootfile_raises:
  "read_container_rootfile L zf = Inl e \<longleftrightarrow>
     (zf_read zf ''META-INF/container.xml'' = Inl e \<and> e \<noteq> KeyError) \<or>
     (\<exists>xml. zf_read zf ''META-INF/container.xml'' = Inr xml \<and>
        fromstring L xml = Inl e \<and> e \<noteq> ParseError)"
  by (auto simp: read_container_rootfile_def split: sum.splits option.splits)


text \<open>
  C1 fails on the code. The archive \<open>badenc_zip\<close> is a valid zip; its container file
  declares the encoding \<open>xxx\<close>, on which \<^verbatim>\<open>ET.fromstring\<close> raises \<^verbatim>\<open>LookupError\<close>.
  \<^verbatim>\<open>_read_container_rootfile\<close> catches \<^verbatim>\<open>ET.ParseError\<close> only, so both entry points
  raise \<^verbatim>\<open>LookupError\<close> instead of returning a string.
\<close>

theorem container_error_escapes:
  "ZipFile example_lib (ascii ''PK-badenc'') = Inr badenc_zip \<and>
   epub_to_txt example_lib (Some (ascii ''PK-badenc'')) = Inl LookupError \<and>
   epub_to_html example_lib (Some (ascii ''PK-badenc'')) = Inl LookupError"
  by code_simp

section \<open>The title in the HTML document\<close>

lemma epub_to_html_Inr:
  assumes "epub_to_html L epub_bytes = Inr html"
  shows "\<exists>data zf opf_path t. epub_bytes = Some data \<and> ZipFile L data = Inr zf \<and>
           read_container_rootfile L zf = Inr opf_path \<and>
           epub_to_txt L epub_bytes = Inr t \<and>
           html = render_html (fst (collect_xhtml_paths L zf opf_path)) t"
  using assms
  by (auto simp: epub_to_html_def split: option.splits sum.splits prod.splits)

lemma safe_title_chars:
  "length (safe_title_of title) \<le> 200 \<and>
   CHR ''<'' \<notin> set (safe_title_of title) \<and> CHR ''>'' \<notin> set (safe_title_of title) \<and>
   CHR ''&'' \<notin> set (safe_title_of title) \<and> CHR 0x22 \<notin> set (safe_title_of title)"
  by (auto simp: safe_title_of_def dest: in_set_takeD)

lemma render_html_shape:
  "\<exists>pre mid rest.
     render_html title t =
       pre @ ''<title>'' @ safe_title_of title @ ''</title>'' @ mid @
       ''<h1>'' @ safe_title_of title @ ''</h1>'' @ rest"
proof -
  obtain pre where pre: "shell_head = pre @ ''<title>''"
    by (simp add: shell_head_def)
  obtain mid where mid: "shell_style = ''</title>'' @ mid @ ''<h1>''"
    by (simp add: shell_style_def)
  obtain rest0 where rest: "shell_body = ''</h1>'' @ rest0"
    by (simp add: shell_body_def)
  show ?thesis
    unfolding render_html_def Let_def pre mid rest
    by (metis append.assoc)
qed

text \<open>
  C8. The title put into the document is the resolved title, or \<open>EPUB\<close> when there is
  none, stripped of surrounding whitespace, with every \<open><\<close>, \<open>>\<close>, \<open>&\<close> and double quote
  removed, cut to 200 characters. It holds none of these four characters (so no \<open>&\<close>
  outside an escape sequence, there being no \<open>&\<close> at all), and it is this text that
  stands in the \<open>title\<close> element and in the \<open>h1\<close> heading of whatever \<open>epub_to_html\<close>
  returns.
\<close>

theorem title_is_sanitized:
  \<open>length (safe_title_of title) \<le> 200 \<and>
   CHR ''<'' \<notin> set (safe_title_of title) \<and> CHR ''>'' \<notin> set (safe_title_of title) \<and>
   CHR ''&'' \<notin> set (safe_title_of title) \<and> CHR 0x22 \<notin> set (safe_title_of title) \<and>
   safe_title_of title =
     take 200
       (filter (\<lambda>c. c \<noteq> CHR ''<'' \<and> c \<noteq> CHR ''>'' \<and> c \<noteq> CHR ''&'' \<and> c \<noteq> CHR 0x22)
         (strip (case title of None \<Rightarrow> ''EPUB'' | Some t \<Rightarrow> (if t = [] then ''EPUB'' else t)))) \<and>
   (\<exists>pre mid rest.
      render_html title txt =
        pre @ ''<title>'' @ safe_title_of title @ ''</title>'' @ mid @
        ''<h1>'' @ safe_title_of title @ ''</h1>'' @ rest) \<and>
   (epub_to_html L epub_bytes = Inr html \<longrightarrow>
      (\<exists>data zf opf_path t. epub_bytes = Some data \<and> ZipFile L data = Inr zf \<and>
         read_container_rootfile L zf = Inr opf_path \<and>
         epub_to_txt L epub_bytes = Inr t \<and>
         html = render_html (fst (collect_xhtml_paths L zf opf_path)) t))\<close>
proof (intro conjI impI)
  show "safe_title_of title =
     take 200
       (filter (\<lambda>c. c \<noteq> CHR ''<'' \<and> c \<noteq> CHR ''>'' \<and> c \<noteq> CHR ''&'' \<and> c \<noteq> CHR 0x22)
         (strip (case title of None \<Rightarrow> ''EPUB'' | Some t \<Rightarrow> (if t = [] then ''EPUB'' else t))))"
    by (simp add: safe_title_of_def)
  show "\<exists>pre mid rest.
      render_html title txt =
        pre @ ''<title>'' @ safe_title_of title @ ''</title>'' @ mid @
        ''<h1>'' @ safe_title_of title @ ''</h1>'' @ rest"
    by (rule render_html_shape)
  show "\<exists>data zf opf_path t. epub_bytes = Some data \<and> ZipFile L data = Inr zf \<and>
         read_container_rootfile L zf = Inr opf_path \<and>
         epub_to_txt L epub_bytes = Inr t \<and>
         html = render_html (fst (collect_xhtml_paths L zf opf_path)) t"
    if "epub_to_html L epub_bytes = Inr html"
    using that by (rule epub_to_html_Inr)
qed (simp_all add: safe_title_chars)

lemma book_html:
  \<open>epub_to_html example_lib (Some (ascii ''PK-book'')) =
     Inr (shell_head @ ''Evil  Title'' @ shell_style @ ''Evil  Title'' @ shell_body @
          ''<p>Visible</p>\<newline><p>X</p>\<newline><p>Visible</p>'' @ shell_tail)\<close>
  by code_simp

theorem title_is_sanitized_witness:
  \<open>safe_title_of (Some ''<Evil & "Title">'') = ''Evil  Title'' \<and>
   (\<exists>data zf opf_path t. Some (ascii ''PK-book'') = Some data \<and>
      ZipFile example_lib data = Inr zf \<and>
      read_container_rootfile example_lib zf = Inr opf_path \<and>
      epub_to_txt example_lib (Some (ascii ''PK-book'')) = Inr t \<and>
      shell_head @ ''Evil  Title'' @ shell_style @ ''Evil  Title'' @ shell_body @
          ''<p>Visible</p>\<newline><p>X</p>\<newline><p>Visible</p>'' @ shell_tail =
        render_html (fst (collect_xhtml_paths example_lib zf opf_path)) t)\<close>
proof -
  have "safe_title_of (Some ''<Evil & \"Title\">'') = ''Evil  Title''"
    by code_simp
  then show ?thesis
    using title_is_sanitized [of "Some ''<Evil & \"Title\">''" "[]" example_lib
        "Some (ascii ''PK-book'')", THEN conjunct2, THEN conjunct2, THEN conjunct2,
        THEN conjunct2, THEN conjunct2, THEN conjunct2, THEN conjunct2, rule_format,
        OF book_html]
    by simp
qed

section \<open>The title after the scan\<close>

text \<open>
  C10. When the package document parses and declares a title but its spine yields no
  HTML-like document, the collector falls back to the scan and returns no title; so
  the document \<open>epub_to_html\<close> returns for such an archive holds the placeholder \<open>EPUB\<close>
  in its \<open>title\<close> element and its \<open>h1\<close> heading, not the title the package declares.
\<close>

theorem fallback_discards_title:
  assumes "ZipFile L data = Inr zf"
    and "read_container_rootfile L zf = Inr (Some p)"
    and "p \<noteq> []"
    and "parse_opf L zf p = Inr (Some t, manifest, spine_ids)"
    and "spine_documents p manifest spine_ids = []"
    and "epub_to_html L (Some data) = Inr html"
  shows "collect_xhtml_paths L zf (Some p) = (None, sort (filter html_ext (namelist zf))) \<and>
         safe_title_of None = ''EPUB'' \<and>
         (\<exists>txt. epub_to_txt L (Some data) = Inr txt \<and>
            html = shell_head @ ''EPUB'' @ shell_style @ ''EPUB'' @ shell_body @
                   join [NL] (html_blocks (split_blank txt)) @ shell_tail)"
proof -
  have c: "collect_xhtml_paths L zf (Some p) = (None, sort (filter html_ext (namelist zf)))"
    using assms(3-5) by (simp add: collect_xhtml_paths_def spine_paths_Some)
  have e: "safe_title_of None = ''EPUB''"
    by (simp add: safe_title_of_def strip_def is_space_def)
  obtain r where "epub_to_txt L (Some data) = Inr r"
    and "html = render_html (fst (collect_xhtml_paths L zf (Some p))) r"
    using epub_to_html_Inr [OF assms(6)] assms(1,2) by auto
  then show ?thesis
    using c e by (simp add: render_html_def)
qed

lemma loose_open:
  "ZipFile example_lib (ascii ''PK-loose'') = Inr loose_zip \<and>
   read_container_rootfile example_lib loose_zip = Inr (Some ''content.opf'')"
  by code_simp

lemma loose_html:
  "epub_to_html example_lib (Some (ascii ''PK-loose'')) =
     Inr (shell_head @ ''EPUB'' @ shell_style @ ''EPUB'' @ shell_body @
          ''<p>'' @ [CHR 0xE9] @ ''</p>\<newline><p>A</p>\<newline><p>B</p>'' @ shell_tail)"
  by code_simp

theorem fallback_discards_title_witness:
  "parse_opf example_lib loose_zip ''content.opf'' = Inr (Some ''Loose Leaves'', Map.empty, []) \<and>
   collect_xhtml_paths example_lib loose_zip (Some ''content.opf'') =
     (None, sort (filter html_ext (namelist loose_zip))) \<and>
   (\<exists>txt. epub_to_txt example_lib (Some (ascii ''PK-loose'')) = Inr txt \<and>
      shell_head @ ''EPUB'' @ shell_style @ ''EPUB'' @ shell_body @
          ''<p>'' @ [CHR 0xE9] @ ''</p>\<newline><p>A</p>\<newline><p>B</p>'' @ shell_tail =
        shell_head @ ''EPUB'' @ shell_style @ ''EPUB'' @ shell_body @
          join [NL] (html_blocks (split_blank txt)) @ shell_tail)"
proof -
  have d: "spine_documents ''content.opf'' Map.empty [] = []"
    by (simp add: spine_documents_def map_filter_simps)
  show ?thesis
    using fallback_discards_title
      [OF loose_open [THEN conjunct1] loose_open [THEN conjunct2] _ loose_parse d loose_html]
      loose_parse
    by auto
qed

section \<open>The layout of the plain text\<close>

subsection \<open>Runs of newlines\<close>

lemma triple_nl_Cons_other [simp]: "c \<noteq> NL \<Longrightarrow> triple_nl (c # s) = triple_nl s"
  by (induction s rule: triple_nl.induct) auto






lemma collapse_newlines_Nil_iff [simp]: "collapse_newlines s = [] \<longleftrightarrow> s = []"
  by (cases s) auto







subsection \<open>Runs of horizontal whitespace\<close>

lemma NL_not_hspace [simp]: "\<not> is_hspace NL"
  by (simp add: is_hspace_def NL_def SP_def)

lemma SP_hspace [simp]: "is_hspace SP"
  by (simp add: is_hspace_def)




lemma collapse_hspace_Nil_iff [simp]: "collapse_hspace s = [] \<longleftrightarrow> s = []"
  by (cases s) auto





subsection \<open>Stripping\<close>

lemma NL_space [simp]: "is_space NL"
  by (simp add: is_space_def NL_def)





subsection \<open>Joining the blocks\<close>


lemma triple_nl_second [simp]: "b \<noteq> NL \<Longrightarrow> triple_nl (a # b # s) = triple_nl s"
  by (cases s) auto













lemma blank_lines_example:
  "get_text \<lparr>parts = [''a \<newline>\<newline>\<newline>\<newline> b  c'', [CR, NL, CHR 0x09], ''d  ''], stack = []\<rparr> =
     ''a \<newline>\<newline> b c\<newline> d'' \<and>
   get_text \<lparr>parts = [''a'', [NL], [NL], [NL], [NL], ''b''], stack = []\<rparr> = ''a\<newline>\<newline>b''"
  by code_simp


end
